theory Spec2Isabelle
  imports Complex_Main "HOL-Library.Word"
begin

unbundle bit_operations_syntax

section \<open>The motor controller of px4esc (src/motorctl.c)\<close>

text \<open>
  The controller sits between the public command interface and the commutation driver.
  Its data are two C structs, \<open>_state\<close> and \<open>_params\<close>; its work is done by a control
  thread that wakes once per period, filters the telemetry, runs the control law of the
  current mode, limits the slope of the duty cycle and commands the driver.

  The embedding keeps the structs as records and passes them explicitly. Every call into
  the driver that returns a reading is a field of the record \<open>driver_io\<close> (the readings
  one iteration of the thread sees); every call that commands the driver is an element of
  the returned list of \<open>motor_cmd\<close>. The C types \<open>uint32_t\<close>, \<open>unsigned\<close> and
  \<open>int\<close> are 32-bit words, \<open>uint64_t\<close> is a 64-bit word.
\<close>

subsection \<open>Values of type float\<close>

text \<open>
  A C \<open>float\<close> is a finite number, an infinity or a NaN. The controller relies on the
  difference: it returns \<open>nan("")\<close> for "stop the motor" and tests it with
  \<open>isfinite\<close>. Finite values are modelled as real numbers: the operations below follow
  IEEE 754 on infinities and NaN (every comparison with a NaN is false), but these
  operations do not round or overflow (the rounded ones follow below), and the sign of
  zero is not modelled, a division of a nonzero number by zero giving the infinity of the
  sign of the dividend.
\<close>

datatype cfloat = Fin real | PInf | NInf | NaN

fun isfinite :: "cfloat \<Rightarrow> bool" where
  "isfinite (Fin x) = True"
| "isfinite PInf = False"
| "isfinite NInf = False"
| "isfinite NaN = False"

text \<open>\<open>a < b\<close> on floats.\<close>

fun fless :: "cfloat \<Rightarrow> cfloat \<Rightarrow> bool" where
  "fless NaN b = False"
| "fless a NaN = False"
| "fless (Fin x) (Fin y) = (x < y)"
| "fless (Fin x) PInf = True"
| "fless (Fin x) NInf = False"
| "fless PInf b = False"
| "fless NInf (Fin y) = True"
| "fless NInf PInf = True"
| "fless NInf NInf = False"

text \<open>\<open>a > b\<close> and \<open>a >= b\<close> on floats.\<close>

definition fgreater :: "cfloat \<Rightarrow> cfloat \<Rightarrow> bool" where
  "fgreater a b = fless b a"

fun fge :: "cfloat \<Rightarrow> cfloat \<Rightarrow> bool" where
  "fge NaN b = False"
| "fge a NaN = False"
| "fge a b = (\<not> fless a b)"

fun fneg :: "cfloat \<Rightarrow> cfloat" where
  "fneg (Fin x) = Fin (- x)"
| "fneg PInf = NInf"
| "fneg NInf = PInf"
| "fneg NaN = NaN"

fun fabs :: "cfloat \<Rightarrow> cfloat" where
  "fabs (Fin x) = Fin \<bar>x\<bar>"
| "fabs PInf = PInf"
| "fabs NInf = PInf"
| "fabs NaN = NaN"

fun fadd :: "cfloat \<Rightarrow> cfloat \<Rightarrow> cfloat" where
  "fadd NaN b = NaN"
| "fadd a NaN = NaN"
| "fadd (Fin x) (Fin y) = Fin (x + y)"
| "fadd (Fin x) b = b"
| "fadd PInf NInf = NaN"
| "fadd NInf PInf = NaN"
| "fadd a b = a"

definition fsub :: "cfloat \<Rightarrow> cfloat \<Rightarrow> cfloat" where
  "fsub a b = fadd a (fneg b)"

fun fmul :: "cfloat \<Rightarrow> cfloat \<Rightarrow> cfloat" where
  "fmul NaN b = NaN"
| "fmul a NaN = NaN"
| "fmul (Fin x) (Fin y) = Fin (x * y)"
| "fmul (Fin x) PInf = (if x = 0 then NaN else if 0 < x then PInf else NInf)"
| "fmul (Fin x) NInf = (if x = 0 then NaN else if 0 < x then NInf else PInf)"
| "fmul PInf (Fin y) = (if y = 0 then NaN else if 0 < y then PInf else NInf)"
| "fmul NInf (Fin y) = (if y = 0 then NaN else if 0 < y then NInf else PInf)"
| "fmul PInf PInf = PInf"
| "fmul PInf NInf = NInf"
| "fmul NInf PInf = NInf"
| "fmul NInf NInf = PInf"

fun fdiv :: "cfloat \<Rightarrow> cfloat \<Rightarrow> cfloat" where
  "fdiv NaN b = NaN"
| "fdiv a NaN = NaN"
| "fdiv (Fin x) (Fin y) =
     (if y \<noteq> 0 then Fin (x / y)
      else if x = 0 then NaN else if 0 < x then PInf else NInf)"
| "fdiv (Fin x) b = Fin 0"
| "fdiv PInf (Fin y) = (if 0 \<le> y then PInf else NInf)"
| "fdiv NInf (Fin y) = (if 0 \<le> y then NInf else PInf)"
| "fdiv a b = NaN"

text \<open>The conversions of an unsigned integer to \<open>float\<close>.\<close>

definition float_of_u32 :: "32 word \<Rightarrow> cfloat" where
  "float_of_u32 w = Fin (real (unat w))"

definition float_of_u64 :: "64 word \<Rightarrow> cfloat" where
  "float_of_u64 w = Fin (real (unat w))"

subsection \<open>Rounding to binary32\<close>

text \<open>
  The arithmetic above is exact. It serves the properties that rounding does not touch:
  which branch a NaN or a zero period takes, what is assigned, which bounds hold. Where a
  property depends on the digits (the threshold test and the step of the slope limiter),
  the operations below round each finite result to the nearest binary32 number, ties to
  even, as the \<open>float\<close> operations of the code do: \<open>b32\<close> picks the exponent of the
  argument (not below -126, the subnormal range), rounds the argument to a multiple of
  the unit in the last place \<open>2 ^ (e - 23)\<close>, and overflows to an infinity from
  \<open>2 ^ 128\<close> on.
\<close>

definition pow2 :: "int \<Rightarrow> real" where
  "pow2 e = (if 0 \<le> e then 2 ^ nat e else 1 / 2 ^ nat (- e))"

text \<open>The largest \<open>e\<close>, counting down from the start, with \<open>2 ^ e \<le> x\<close>.\<close>

fun expo_search :: "nat \<Rightarrow> int \<Rightarrow> real \<Rightarrow> int" where
  "expo_search 0 e x = e"
| "expo_search (Suc n) e x = (if pow2 e \<le> x then e else expo_search n (e - 1) x)"

text \<open>Rounding to the nearest integer, ties to the even one.\<close>

definition rne :: "real \<Rightarrow> int" where
  "rne q =
     (let f = \<lfloor>q\<rfloor>; r = q - of_int f
      in if r < 1 / 2 then f
         else if 1 / 2 < r then f + 1
         else if even f then f else f + 1)"

definition b32 :: "real \<Rightarrow> cfloat" where
  "b32 x =
     (let e = expo_search 253 127 \<bar>x\<bar>;
          u = pow2 (e - 23);
          y = of_int (rne (x / u)) * u
      in if pow2 128 \<le> \<bar>y\<bar> then (if 0 < x then PInf else NInf) else Fin y)"





subsection \<open>Constants of the headers\<close>

text \<open>
  Modelled from the spec: \<open>HNSEC_PER_SEC\<close> is declared in \<open>motor/timer.h\<close>, which is
  not among the sources. The time unit is the hundred-nanosecond tick ("hnsec"), and the
  comment above \<open>comm_period_to_rpm\<close> writes the constant out: ten million ticks per
  second.
\<close>

definition HNSEC_PER_SEC :: nat where
  "HNSEC_PER_SEC = 10000000"

text \<open>
  Modelled from the spec: the enumerations \<open>motorctl_mode\<close> and \<open>motor_state\<close> and the
  flags of the limit mask are declared in \<open>motorctl.h\<close> and \<open>motor/motor.h\<close>, which
  are not among the sources. The spec names two modes, three driver states and two limit
  flags; the flags are taken as the two lowest bits.
\<close>

datatype motorctl_mode = MOTORCTL_MODE_OPENLOOP | MOTORCTL_MODE_RPM

datatype motor_state = MOTOR_STATE_IDLE | MOTOR_STATE_STARTING | MOTOR_STATE_RUNNING

definition MOTORCTL_LIMIT_RPM :: "32 word" where
  "MOTORCTL_LIMIT_RPM = 1"

definition MOTORCTL_LIMIT_ACCEL :: "32 word" where
  "MOTORCTL_LIMIT_ACCEL = 2"

text \<open>The valid band of the seeded input voltage, defined in \<open>motorctl.c\<close> itself.\<close>

definition MIN_VALID_INPUT_VOLTAGE :: cfloat where
  "MIN_VALID_INPUT_VOLTAGE = Fin 4"

definition MAX_VALID_INPUT_VOLTAGE :: cfloat where
  "MAX_VALID_INPUT_VOLTAGE = Fin 40"

subsection \<open>The structs\<close>

record state =
  mode :: motorctl_mode
  limit_mask :: "32 word"
  dc_actual :: cfloat
  dc_openloop_setpoint :: cfloat
  rpm_setpoint :: "32 word"
  input_voltage :: cfloat
  input_current :: cfloat

record params =
  spinup_voltage :: cfloat
  dc_step_max :: cfloat
  dc_slope :: cfloat
  voltage_current_lowpass_tau :: cfloat
  poles :: "32 word"
  reverse :: bool
  comm_period_limit :: "32 word"
  rpm_max :: "32 word"
  rpm_min :: "32 word"

text \<open>What the driver and the timer return during one iteration of the control thread.\<close>

record driver_io =
  motor_get_state :: motor_state
  motor_get_comm_period_hnsec :: "32 word"
  motor_get_limit_comm_period_hnsec :: "32 word"
  motor_get_input_voltage :: cfloat
  motor_get_input_current :: cfloat
  motor_timer_hnsec :: "64 word"

text \<open>The commands the controller gives to the driver.\<close>

datatype motor_cmd =
  Motor_stop
| Motor_start cfloat cfloat bool
| Motor_set_duty_cycle cfloat

text \<open>
  A run of the C code that does not return: a failed \<open>assert\<close>, or an integer division
  by zero (undefined in C; a fault or an arbitrary result on the target).
\<close>

datatype fault = Assertion_failed | Division_by_zero

subsection \<open>Commutation period to RPM\<close>

text \<open>
  \<open>_params.poles * 6\<close> is an \<open>int\<close> product, converted to \<open>unsigned long long\<close>
  (sign extension) for the 64-bit division; the quotient is truncated to \<open>uint32_t\<close>
  and divided by the period in 32 bits.
\<close>

definition comm_period_to_rpm :: "params \<Rightarrow> 32 word \<Rightarrow> fault + 32 word" where
  "comm_period_to_rpm p comm_period_hnsec =
     (if \<not> (0 <s poles p) then Inl Assertion_failed
      else
        let d = (scast (poles p * 6) :: 64 word) in
        if d = 0 then Inl Division_by_zero
        else
          let x = (ucast ((120 * word_of_nat HNSEC_PER_SEC) div d) :: 32 word) in
          if comm_period_hnsec = 0 then Inl Division_by_zero
          else Inr (x div comm_period_hnsec))"

subsection \<open>Configuration\<close>

text \<open>
  The structs are static, so they start zeroed; the first enumerator of the mode is the
  open-loop mode. \<open>configure\<close> sets the pole count before it derives the RPM ceiling
  from the driver's smallest commutation period. The constants 2.0, 1.0 and 1 / 0.5 are
  binary32 numbers; 0.2 is not, and the field holds the binary32 number nearest to it,
  13421773 / 67108864.
\<close>

definition params0 :: params where
  "params0 =
     \<lparr>spinup_voltage = Fin 0, dc_step_max = Fin 0, dc_slope = Fin 0,
      voltage_current_lowpass_tau = Fin 0, poles = 0, reverse = False,
      comm_period_limit = 0, rpm_max = 0, rpm_min = 0\<rparr>"

definition state0 :: state where
  "state0 =
     \<lparr>mode = MOTORCTL_MODE_OPENLOOP, limit_mask = 0, dc_actual = Fin 0,
      dc_openloop_setpoint = Fin 0, rpm_setpoint = 0,
      input_voltage = Fin 0, input_current = Fin 0\<rparr>"

definition configure :: "driver_io \<Rightarrow> params \<Rightarrow> fault + params" where
  "configure d p0 =
     (let p = p0\<lparr>spinup_voltage := Fin 2,
                  dc_step_max := b32 (2 / 10),
                  dc_slope := Fin 1,
                  voltage_current_lowpass_tau := Fin (1 / (5 / 10)),
                  poles := 14,
                  reverse := False,
                  comm_period_limit := motor_get_limit_comm_period_hnsec d\<rparr>
      in case comm_period_to_rpm p (comm_period_limit p) of
           Inl f \<Rightarrow> Inl f
         | Inr r \<Rightarrow> Inr (p\<lparr>rpm_max := r, rpm_min := 500\<rparr>))"

subsection \<open>Telemetry filters\<close>

definition lowpass :: "cfloat \<Rightarrow> cfloat \<Rightarrow> cfloat \<Rightarrow> cfloat \<Rightarrow> cfloat" where
  "lowpass xold xnew tau dt = fdiv (fadd (fmul dt xnew) (fmul tau xold)) (fadd dt tau)"

definition init_filters :: "driver_io \<Rightarrow> state \<Rightarrow> state" where
  "init_filters d s =
     s\<lparr>input_voltage := motor_get_input_voltage d,
       input_current := motor_get_input_current d\<rparr>"

definition update_filters :: "params \<Rightarrow> driver_io \<Rightarrow> cfloat \<Rightarrow> state \<Rightarrow> state" where
  "update_filters p d dt s =
     (let voltage = motor_get_input_voltage d;
          current = motor_get_input_current d
      in s\<lparr>input_voltage :=
              lowpass (input_voltage s) voltage (voltage_current_lowpass_tau p) dt,
            input_current :=
              lowpass (input_current s) current (voltage_current_lowpass_tau p) dt\<rparr>)"

subsection \<open>The control step\<close>

definition stop :: "state \<Rightarrow> state \<times> motor_cmd list" where
  "stop s =
     (s\<lparr>limit_mask := 0, dc_actual := Fin 0,
        dc_openloop_setpoint := Fin 0, rpm_setpoint := 0\<rparr>,
      [Motor_stop])"

definition update_control_non_running ::
  "params \<Rightarrow> driver_io \<Rightarrow> state \<Rightarrow> state \<times> motor_cmd list" where
  "update_control_non_running p d s =
     (if motor_get_state d = MOTOR_STATE_STARTING then (s, [])
      else
        let spinup_dc = fdiv (spinup_voltage p) (input_voltage s);
            s1 = s\<lparr>dc_actual := spinup_dc, limit_mask := 0\<rparr>;
            need_start =
              ((mode s1 = MOTORCTL_MODE_OPENLOOP \<and> fge (dc_openloop_setpoint s1) spinup_dc) \<or>
               (mode s1 = MOTORCTL_MODE_RPM \<and> rpm_min p \<le> rpm_setpoint s1))
        in (s1, if need_start then [Motor_start spinup_dc spinup_dc (reverse p)] else []))"

text \<open>
  The value \<open>dc\<close> of the "simple P controller" of the open-loop law: \<open>c1\<close> is the
  period limit as a float, \<open>c0\<close> is the integer quotient \<open>comm_period_limit / 2\<close>
  converted to float.
\<close>

definition open_loop_throttle_dc :: "params \<Rightarrow> 32 word \<Rightarrow> cfloat" where
  "open_loop_throttle_dc p cp =
     (let c1 = float_of_u32 (comm_period_limit p);
          c0 = float_of_u32 (comm_period_limit p div 2)
      in fdiv (fsub (float_of_u32 cp) c0) (fsub c1 c0))"

definition update_control_open_loop ::
  "params \<Rightarrow> driver_io \<Rightarrow> state \<Rightarrow> cfloat \<times> state" where
  "update_control_open_loop p d s =
     (let cp = motor_get_comm_period_hnsec d in
      if cp = 0 then (NaN, s)
      else if cp < comm_period_limit p \<and>
              fless (open_loop_throttle_dc p cp) (dc_openloop_setpoint s)
      then (open_loop_throttle_dc p cp,
            s\<lparr>limit_mask := limit_mask s OR MOTORCTL_LIMIT_RPM\<rparr>)
      else
        let s1 = s\<lparr>limit_mask := limit_mask s AND NOT MOTORCTL_LIMIT_RPM\<rparr> in
        if fgreater (dc_openloop_setpoint s1) (Fin 0)
        then (dc_openloop_setpoint s1, s1)
        else (NaN, s1))"

definition update_control_rpm :: "cfloat \<Rightarrow> cfloat" where
  "update_control_rpm dt = NaN"

text \<open>The "primary control logic" of \<open>update_control\<close>: the law of the current mode.\<close>

definition control_law :: "params \<Rightarrow> driver_io \<Rightarrow> cfloat \<Rightarrow> state \<Rightarrow> cfloat \<times> state" where
  "control_law p d dt s =
     (case mode s of
        MOTORCTL_MODE_OPENLOOP \<Rightarrow> update_control_open_loop p d s
      | MOTORCTL_MODE_RPM \<Rightarrow> (update_control_rpm dt, s))"

text \<open>The "duty cycle slope control" and the "update" of \<open>update_control\<close>.\<close>

definition slope_control ::
  "params \<Rightarrow> cfloat \<Rightarrow> cfloat \<Rightarrow> state \<Rightarrow> state \<times> motor_cmd list" where
  "slope_control p dt new_duty_cycle s =
     (let (dc, s1) =
        (if fgreater (fabs (fsub new_duty_cycle (dc_actual s))) (dc_step_max p)
         then
           let step0 = fmul (dc_slope p) dt;
               step = (if fless new_duty_cycle (dc_actual s) then fneg step0 else step0)
           in (fadd (dc_actual s) step,
               s\<lparr>limit_mask := limit_mask s OR MOTORCTL_LIMIT_ACCEL\<rparr>)
         else (new_duty_cycle,
               s\<lparr>limit_mask := limit_mask s AND NOT MOTORCTL_LIMIT_ACCEL\<rparr>))
      in (s1\<lparr>dc_actual := dc\<rparr>, [Motor_set_duty_cycle dc]))"


definition update_control ::
  "params \<Rightarrow> driver_io \<Rightarrow> cfloat \<Rightarrow> state \<Rightarrow> state \<times> motor_cmd list" where
  "update_control p d dt s =
     (if motor_get_state d \<noteq> MOTOR_STATE_RUNNING then update_control_non_running p d s
      else
        let (new_duty_cycle, s1) = control_law p d dt s in
        if \<not> isfinite new_duty_cycle then stop s1
        else slope_control p dt new_duty_cycle s1)"

subsection \<open>The control thread\<close>

text \<open>
  One iteration of the loop of \<open>control_thread\<close>, between taking and releasing the
  mutex. The thread keeps the time stamp of its previous iteration; \<open>dt\<close> is the
  difference of two 64-bit tick counts, converted to seconds.
\<close>

definition control_thread_iteration ::
  "params \<Rightarrow> driver_io \<Rightarrow> 64 word \<times> state \<Rightarrow> (64 word \<times> state) \<times> motor_cmd list" where
  "control_thread_iteration p d w =
     (let timestamp_hnsec = fst w;
          new_timestamp_hnsec = motor_timer_hnsec d;
          dt = fdiv (float_of_u64 (new_timestamp_hnsec - timestamp_hnsec))
                    (Fin (real HNSEC_PER_SEC));
          s1 = update_filters p d dt (snd w);
          (s2, cmds) = update_control p d dt s1
      in ((new_timestamp_hnsec, s2), cmds))"

subsection \<open>The public interface\<close>

text \<open>
  \<open>motorctl_init\<close> returns the status and the steps it has performed, with the structs
  as it leaves them. The result of \<open>motor_init\<close> is its first argument.
\<close>

datatype init_step = ChMtxInit | ChEvtInit | Configure | Init_filters | ChThdCreateStatic

definition motorctl_init ::
  "32 word \<Rightarrow> driver_io \<Rightarrow> fault + (32 word \<times> init_step list \<times> params \<times> state)" where
  "motorctl_init motor_init d =
     (let ret = motor_init in
      if ret \<noteq> 0 then Inr (ret, [], params0, state0)
      else
        case configure d params0 of
          Inl f \<Rightarrow> Inl f
        | Inr p \<Rightarrow>
            let s = init_filters d state0 in
            if fless (input_voltage s) MIN_VALID_INPUT_VOLTAGE \<or>
               fgreater (input_voltage s) MAX_VALID_INPUT_VOLTAGE
            then Inr (- 1, [ChMtxInit, ChEvtInit, Configure, Init_filters], p, s)
            else Inr (0, [ChMtxInit, ChEvtInit, Configure, Init_filters, ChThdCreateStatic],
                      p, s))"

definition motorctl_set_duty_cycle :: "cfloat \<Rightarrow> state \<Rightarrow> state" where
  "motorctl_set_duty_cycle dc s =
     (let s1 = s\<lparr>mode := MOTORCTL_MODE_OPENLOOP\<rparr>;
          dc1 = (if fless dc (Fin 0) then Fin 0 else dc);
          dc2 = (if fgreater dc1 (Fin 1) then Fin 1 else dc1)
      in s1\<lparr>dc_openloop_setpoint := dc2\<rparr>)"

definition motorctl_set_rpm :: "params \<Rightarrow> 32 word \<Rightarrow> state \<Rightarrow> state" where
  "motorctl_set_rpm p rpm s =
     (let s1 = s\<lparr>mode := MOTORCTL_MODE_RPM\<rparr>;
          rpm1 = (if rpm_max p < rpm then rpm_max p else rpm)
      in s1\<lparr>rpm_setpoint := rpm1\<rparr>)"

definition motorctl_get_duty_cycle :: "state \<Rightarrow> cfloat" where
  "motorctl_get_duty_cycle s = dc_actual s"

definition motorctl_get_rpm :: "params \<Rightarrow> driver_io \<Rightarrow> fault + 32 word" where
  "motorctl_get_rpm p d =
     (let cp = motor_get_comm_period_hnsec d in comm_period_to_rpm p cp)"

definition motorctl_get_limit_mask :: "state \<Rightarrow> 32 word" where
  "motorctl_get_limit_mask s = limit_mask s"

subsection \<open>Sequences of operations\<close>

text \<open>
  The mutex makes every iteration of the control thread and every call of a setter
  atomic, so a run of the controller is a sequence of such operations, each on the state
  the previous one left.
\<close>

datatype event =
  Worker_iteration driver_io
| Set_duty_cycle cfloat
| Set_rpm "32 word"

fun step :: "params \<Rightarrow> 64 word \<times> state \<Rightarrow> event \<Rightarrow> 64 word \<times> state" where
  "step p w (Worker_iteration d) = fst (control_thread_iteration p d w)"
| "step p w (Set_duty_cycle dc) = (fst w, motorctl_set_duty_cycle dc (snd w))"
| "step p w (Set_rpm rpm) = (fst w, motorctl_set_rpm p rpm (snd w))"

fun run :: "params \<Rightarrow> 64 word \<times> state \<Rightarrow> event list \<Rightarrow> 64 word \<times> state" where
  "run p w [] = w"
| "run p w (e # es) = run p (step p w e) es"

text \<open>A float in the interval from 0 to 1.\<close>

definition in_unit :: "cfloat \<Rightarrow> bool" where
  "in_unit x = (fge x (Fin 0) \<and> fge (Fin 1) x)"

subsection \<open>Invariants and nominal runs\<close>

text \<open>
  The readings of an iteration are nominal when the raw input voltage is a finite number
  not below the spin-up voltage, the elapsed time is so short that the slope step
  \<open>dc_slope * dt\<close> does not exceed \<open>dc_step_max\<close>, and a running motor's commutation
  period is zero or at least half the limit (the range on which the throttle-back value is
  not negative). A sequence of operations is nominal when the readings of each of its
  iterations are, each against the time stamp of the iteration before.
\<close>

definition nominal_readings :: "params \<Rightarrow> 64 word \<Rightarrow> driver_io \<Rightarrow> bool" where
  "nominal_readings p ts d =
     (isfinite (motor_get_input_voltage d) \<and>
      fge (motor_get_input_voltage d) (spinup_voltage p) \<and>
      fge (dc_step_max p)
          (fmul (dc_slope p)
                (fdiv (float_of_u64 (motor_timer_hnsec d - ts)) (Fin (real HNSEC_PER_SEC)))) \<and>
      (motor_get_state d \<noteq> MOTOR_STATE_RUNNING \<or>
       motor_get_comm_period_hnsec d = 0 \<or>
       comm_period_limit p div 2 \<le> motor_get_comm_period_hnsec d))"

fun nominal :: "params \<Rightarrow> 64 word \<Rightarrow> event list \<Rightarrow> bool" where
  "nominal p ts [] = True"
| "nominal p ts (Worker_iteration d # es) =
     (nominal_readings p ts d \<and> nominal p (motor_timer_hnsec d) es)"
| "nominal p ts (Set_duty_cycle dc # es) = nominal p ts es"
| "nominal p ts (Set_rpm rpm # es) = nominal p ts es"

text \<open>The constants \<open>configure\<close> assigns.\<close>

definition configured_values :: "params \<Rightarrow> bool" where
  "configured_values p =
     (spinup_voltage p = Fin 2 \<and> dc_step_max p = Fin (13421773 / 67108864) \<and>
      dc_slope p = Fin 1 \<and>
      voltage_current_lowpass_tau p = Fin 2)"

text \<open>
  The setpoints are in range; the applied duty cycle is in range and the filtered input
  voltage is a finite number not below the spin-up voltage of 2 V.
\<close>

definition setpoints_ok :: "params \<Rightarrow> state \<Rightarrow> bool" where
  "setpoints_ok p s = (in_unit (dc_openloop_setpoint s) \<and> rpm_setpoint s \<le> rpm_max p)"

definition outputs_ok :: "state \<Rightarrow> bool" where
  "outputs_ok s =
     (in_unit (dc_actual s) \<and> isfinite (input_voltage s) \<and> fge (input_voltage s) (Fin 2))"

subsection \<open>Example inputs\<close>

text \<open>
  Readings of a driver whose smallest commutation period is 1000 ticks and whose current
  sensor reads 1 A; the parameters \<open>configure\<close> derives from it; and the state
  \<open>motorctl_init\<close> leaves with a 12 V supply.
\<close>

definition readings :: "motor_state \<Rightarrow> 32 word \<Rightarrow> cfloat \<Rightarrow> 64 word \<Rightarrow> driver_io" where
  "readings st cp v t =
     \<lparr>motor_get_state = st, motor_get_comm_period_hnsec = cp,
      motor_get_limit_comm_period_hnsec = 1000, motor_get_input_voltage = v,
      motor_get_input_current = Fin 1, motor_timer_hnsec = t\<rparr>"

definition configured :: params where
  "configured =
     \<lparr>spinup_voltage = Fin 2, dc_step_max = Fin (13421773 / 67108864), dc_slope = Fin 1,
      voltage_current_lowpass_tau = Fin 2, poles = 14, reverse = False,
      comm_period_limit = 1000, rpm_max = 14285, rpm_min = 500\<rparr>"

definition initial :: state where
  "initial = state0\<lparr>input_voltage := Fin 12, input_current := Fin 1\<rparr>"

section \<open>Properties\<close>

subsection \<open>Rounding\<close>

lemma b32_two_tenths: "b32 (2 / 10) = Fin (13421773 / 67108864)"
  by code_simp

lemma b32_one_fifth: "b32 (1 / 5) = Fin (13421773 / 67108864)"
  using b32_two_tenths by simp











lemmas model_defs =
  b32_one_fifth readings_def configured_def initial_def params0_def state0_def configure_def lowpass_def
  init_filters_def update_filters_def stop_def update_control_non_running_def
  open_loop_throttle_dc_def update_control_open_loop_def update_control_rpm_def
  control_law_def slope_control_def update_control_def control_thread_iteration_def
  motorctl_init_def motorctl_set_duty_cycle_def motorctl_set_rpm_def motorctl_get_rpm_def
  comm_period_to_rpm_def HNSEC_PER_SEC_def float_of_u32_def float_of_u64_def
  fgreater_def fsub_def in_unit_def MOTORCTL_LIMIT_RPM_def MOTORCTL_LIMIT_ACCEL_def
  MIN_VALID_INPUT_VOLTAGE_def MAX_VALID_INPUT_VOLTAGE_def Let_def split_beta word_sless_alt

text \<open>The example parameters and state are what the code computes.\<close>

lemma configure_readings: "configure (readings st cp v t) params0 = Inr configured"
  by (simp add: model_defs)

lemma motorctl_init_readings:
  "motorctl_init 0 (readings st cp (Fin 12) t)
     = Inr (0, [ChMtxInit, ChEvtInit, Configure, Init_filters, ChThdCreateStatic],
            configured, initial)"
  by (simp add: model_defs)

subsection \<open>Words in the range of a positive int\<close>

lemma uint_small: "unat (w :: 32 word) < 2^31 \<Longrightarrow> uint w < 2^31"
  by (simp add: word_less_nat_alt unat_eq_nat_uint del: nat_uint_eq)

lemma uint_pos: "(w :: 32 word) \<noteq> 0 \<Longrightarrow> 0 < uint w"
  using uint_ge_0 [of w] uint_0_iff [of w] by linarith

lemma sint_small: "unat (w :: 32 word) < 2^31 \<Longrightarrow> sint w = uint w"
proof -
  assume a: "unat w < 2^31"
  have hi: "uint w < 2 ^ 31" using a by (rule uint_small)
  have "- (2 ^ 31) \<le> (0::int)" by simp
  then have lo: "- (2 ^ 31) \<le> uint w" using uint_ge_0 [of w] by (rule order_trans)
  have "signed_take_bit 31 (uint w) = uint w"
    using lo hi by (rule signed_take_bit_int_eq_self)
  then show ?thesis by (simp add: sint_uint)
qed

lemma sint_pos_small: "0 <s (w :: 32 word) \<Longrightarrow> unat w < 2^31"
proof (rule ccontr)
  assume p: "0 <s w" and n: "\<not> unat w < 2^31"
  have e: "sint w = signed_take_bit 31 (uint w)" by (simp add: sint_uint)
  have "2 ^ 31 \<le> uint w" using n by (simp add: unat_eq_nat_uint del: nat_uint_eq)
  then have "signed_take_bit 31 (uint w) \<le> uint w - 2 ^ Suc 31"
    by (rule signed_take_bit_int_less_eq)
  then have a: "signed_take_bit 31 (uint w) \<le> uint w - 4294967296" by simp
  have b: "uint w < 4294967296" using uint_lt2p [of w] by simp
  have "sint (0 :: 32 word) < sint w" using p by (simp only: word_sless_alt)
  then have c: "0 < sint w" by (simp only: sint_0)
  from a b c e show False by linarith
qed

lemma sint_pos_neq0: "0 <s (w :: 32 word) \<Longrightarrow> w \<noteq> 0"
  by (auto simp: word_sless_alt)

lemma scast_small: "unat (w :: 32 word) < 2^31 \<Longrightarrow> unat (scast w :: 64 word) = unat w"
proof -
  assume a: "unat w < 2^31"
  have e: "sint w = uint w" using a by (rule sint_small)
  have "(scast w :: 64 word) = word_of_int (sint w)" by (rule scast_eq)
  also have "\<dots> = word_of_int (uint w)" by (rule arg_cong [OF e])
  also have "\<dots> = word_of_nat (unat w)"
    by (simp only: uint_nat word_of_int_nat of_int_of_nat_eq)
  finally have s: "(scast w :: 64 word) = word_of_nat (unat w)" .
  have "unat w < 2 ^ LENGTH(64)" using a by simp
  then show ?thesis by (simp only: s unat_of_nat mod_less)
qed

lemma unat_times_6: "unat (w::32 word) * 6 < 2^31 \<Longrightarrow> unat (w * 6) = unat w * 6"
proof -
  assume a: "unat w * 6 < 2^31"
  have "unat w * unat (6 :: 32 word) < 2 ^ LENGTH(32)" using a by simp
  then have "unat (w * 6) = unat w * unat (6 :: 32 word)" by (simp only: unat_mult_lem)
  then show ?thesis by simp
qed

subsection \<open>Commutation period to RPM\<close>

text \<open>
  The two successive truncating divisions of \<open>comm_period_to_rpm\<close> give the quotient by
  the product, as long as the product \<open>poles * 6\<close> fits the int it is computed in.
\<close>

lemma comm_period_to_rpm_value:
  assumes s: "0 <s poles p" and b: "unat (poles p) * 6 < 2^31" and c: "cp \<noteq> 0"
  shows "\<exists>r. comm_period_to_rpm p cp = Inr r \<and>
     unat r = (120 * HNSEC_PER_SEC) div (unat (poles p) * 6 * unat cp)"
proof -
  let ?n = "unat (poles p)"
  have n0: "0 < ?n" using sint_pos_neq0 [OF s] by (simp add: unat_gt_0)
  have m: "unat (poles p * 6) = ?n * 6" using b by (rule unat_times_6)
  have d: "unat (scast (poles p * 6) :: 64 word) = ?n * 6"
    using scast_small [of "poles p * 6"] m b by simp
  have dn0: "(scast (poles p * 6) :: 64 word) \<noteq> 0"
    using d n0 by (metis mult_is_0 neq0_conv unat_gt_0 zero_neq_numeral)
  have k: "unat (120 * word_of_nat HNSEC_PER_SEC :: 64 word) = 1200000000"
    by (simp add: HNSEC_PER_SEC_def)
  have q: "unat ((120 * word_of_nat HNSEC_PER_SEC) div scast (poles p * 6) :: 64 word)
      = 1200000000 div (?n * 6)"
    by (simp only: unat_div k d)
  have qb: "1200000000 div (?n * 6) < (2::nat) ^ 32"
    by (rule le_less_trans [OF div_le_dividend]) simp
  have x: "unat (ucast ((120 * word_of_nat HNSEC_PER_SEC) div scast (poles p * 6) :: 64 word)
      :: 32 word) = 1200000000 div (?n * 6)"
    using q qb by (simp add: unsigned_ucast_eq take_bit_nat_eq_self)
  show ?thesis
    using s dn0 c x
    by (simp add: comm_period_to_rpm_def Let_def unat_div HNSEC_PER_SEC_def div_mult2_eq)
qed

text \<open>
  C8. For a positive pole count (whose product with 6 fits the C int) and a positive
  commutation period, \<open>comm_period_to_rpm\<close> returns the floor of
  \<open>(120 * ticks per second) / (poles * 6 * period)\<close>. With 14 poles the period of exactly
  1000 RPM is 1200000000 / 84000 = 14285.71...; the two integer periods around it give
  1000 and 999.
\<close>

theorem comm_period_to_rpm_formula:
  assumes s: "0 <s poles p"
    and b: "sint (poles p) * 6 < 2 ^ 31"
    and c: "comm_period \<noteq> 0"
  shows "(\<exists>r. comm_period_to_rpm p comm_period = Inr r \<and>
            uint r = \<lfloor>real (120 * HNSEC_PER_SEC)
                       / real_of_int (sint (poles p) * 6 * uint comm_period)\<rfloor>) \<and>
         comm_period_to_rpm (p\<lparr>poles := 14\<rparr>) 14285 = Inr 1000 \<and>
         comm_period_to_rpm (p\<lparr>poles := 14\<rparr>) 14286 = Inr 999"
proof -
  have e: "sint (poles p) = int (unat (poles p))"
    using sint_small [OF sint_pos_small [OF s]] by (simp only: uint_nat)
  have "int (unat (poles p) * 6) < 2 ^ 31"
    using b by (simp only: e of_nat_mult of_nat_numeral)
  then have b': "unat (poles p) * 6 < 2 ^ 31"
    by (simp only: of_nat_less_numeral_power_cancel_iff)
  obtain r where r: "comm_period_to_rpm p comm_period = Inr r"
    and v: "unat r = (120 * HNSEC_PER_SEC) div (unat (poles p) * 6 * unat comm_period)"
    using comm_period_to_rpm_value [OF s b' c] by blast
  have "real_of_int (sint (poles p) * 6 * uint comm_period)
      = real (unat (poles p) * 6 * unat comm_period)"
    by (simp only: e uint_nat of_nat_mult of_nat_numeral of_int_of_nat_eq of_int_mult
        of_int_numeral)
  then have "\<lfloor>real (120 * HNSEC_PER_SEC)
        / real_of_int (sint (poles p) * 6 * uint comm_period)\<rfloor>
      = int ((120 * HNSEC_PER_SEC) div (unat (poles p) * 6 * unat comm_period))"
    by (simp only: floor_divide_of_nat_eq)
  also have "\<dots> = uint r" by (simp only: v [symmetric] uint_nat)
  finally have "uint r = \<lfloor>real (120 * HNSEC_PER_SEC)
      / real_of_int (sint (poles p) * 6 * uint comm_period)\<rfloor>" by (rule sym)
  moreover have "comm_period_to_rpm (p\<lparr>poles := 14\<rparr>) 14285 = Inr 1000"
    by (simp add: comm_period_to_rpm_def HNSEC_PER_SEC_def Let_def word_sless_alt)
  moreover have "comm_period_to_rpm (p\<lparr>poles := 14\<rparr>) 14286 = Inr 999"
    by (simp add: comm_period_to_rpm_def HNSEC_PER_SEC_def Let_def word_sless_alt)
  ultimately show ?thesis using r by blast
qed

theorem comm_period_to_rpm_formula_witness:
  "0 <s poles (params0\<lparr>poles := 14\<rparr>) \<and>
   sint (poles (params0\<lparr>poles := 14\<rparr>)) * 6 < 2 ^ 31 \<and>
   (2000 :: 32 word) \<noteq> 0 \<and>
   (\<exists>r. comm_period_to_rpm (params0\<lparr>poles := 14\<rparr>) 2000 = Inr r \<and>
        uint r = \<lfloor>real (120 * HNSEC_PER_SEC)
                   / real_of_int (sint (poles (params0\<lparr>poles := 14\<rparr>)) * 6
                                  * uint (2000 :: 32 word))\<rfloor>) \<and>
   comm_period_to_rpm (params0\<lparr>poles := 14\<rparr>) 14285 = Inr 1000 \<and>
   comm_period_to_rpm (params0\<lparr>poles := 14\<rparr>) 14286 = Inr 999"
proof -
  have s: "0 <s poles (params0\<lparr>poles := 14\<rparr>)" by (simp add: word_sless_alt)
  have b: "sint (poles (params0\<lparr>poles := 14\<rparr>)) * 6 < 2 ^ 31" by simp
  have c: "(2000 :: 32 word) \<noteq> 0" by simp
  show ?thesis
    using comm_period_to_rpm_formula [OF s b c] s b c by simp
qed

text \<open>
  C10. \<open>motorctl_get_rpm\<close> passes the live commutation period to \<open>comm_period_to_rpm\<close>
  unchecked. When the driver reports 0 (the motor is stopped), the divisor of the last
  division is 0: for no parameters does the call return a value. The open-loop law, by
  contrast, tests \<open>cp == 0\<close> before it uses the period.
\<close>

theorem motorctl_get_rpm_stopped:
  "\<forall>r. motorctl_get_rpm p (d\<lparr>motor_get_comm_period_hnsec := 0\<rparr>) \<noteq> Inr r"
  by (simp add: motorctl_get_rpm_def comm_period_to_rpm_def Let_def)

subsection \<open>The forced stop\<close>

lemma update_filters_fields [simp]:
  "mode (update_filters p d dt s) = mode s"
  "limit_mask (update_filters p d dt s) = limit_mask s"
  "dc_actual (update_filters p d dt s) = dc_actual s"
  "dc_openloop_setpoint (update_filters p d dt s) = dc_openloop_setpoint s"
  "rpm_setpoint (update_filters p d dt s) = rpm_setpoint s"
  by (simp_all add: update_filters_def Let_def)

text \<open>The value of the control law depends neither on the telemetry nor on \<open>dt\<close>.\<close>

lemma control_law_value_indep:
  "fst (control_law p d dt (update_filters p d dt' s)) = fst (control_law p d dt0 s)"
  by (simp add: control_law_def update_control_open_loop_def update_control_rpm_def Let_def
      split: motorctl_mode.splits)

lemma stop_fields:
  "snd (stop s) = [Motor_stop]"
  "limit_mask (fst (stop s)) = 0"
  "dc_actual (fst (stop s)) = Fin 0"
  "dc_openloop_setpoint (fst (stop s)) = Fin 0"
  "rpm_setpoint (fst (stop s)) = 0"
  "mode (fst (stop s)) = mode s"
  by (simp_all add: stop_def)

lemma update_control_stop:
  assumes "motor_get_state d = MOTOR_STATE_RUNNING"
    and "\<not> isfinite (fst (control_law p d dt s))"
  shows "update_control p d dt s = stop (snd (control_law p d dt s))"
  using assms by (simp add: update_control_def split_beta)

lemma comm_period_0_no_output:
  "motor_get_comm_period_hnsec d = 0 \<Longrightarrow> fst (control_law p d dt s) = NaN"
  by (simp add: control_law_def update_control_open_loop_def update_control_rpm_def
      split: motorctl_mode.splits)

text \<open>
  C2. When the driver reports the motor as running and the control law of the current
  mode has no finite value on the state the iteration starts from (in particular when the
  driver reports the commutation period 0), the iteration of the control thread commands
  the driver to stop and nothing else, and leaves the limit mask empty, the actual duty
  cycle 0 and both setpoints 0.
\<close>

theorem no_valid_output_forces_stop:
  assumes run: "motor_get_state d = MOTOR_STATE_RUNNING"
    and nvo: "\<not> isfinite (fst (control_law p d dt0 (snd w))) \<or>
              motor_get_comm_period_hnsec d = 0"
  shows "snd (control_thread_iteration p d w) = [Motor_stop] \<and>
         limit_mask (snd (fst (control_thread_iteration p d w))) = 0 \<and>
         dc_actual (snd (fst (control_thread_iteration p d w))) = Fin 0 \<and>
         dc_openloop_setpoint (snd (fst (control_thread_iteration p d w))) = Fin 0 \<and>
         rpm_setpoint (snd (fst (control_thread_iteration p d w))) = 0"
proof -
  let ?dt = "fdiv (float_of_u64 (motor_timer_hnsec d - fst w)) (Fin (real HNSEC_PER_SEC))"
  let ?s1 = "update_filters p d ?dt (snd w)"
  have "\<not> isfinite (fst (control_law p d dt0 (snd w)))"
    using nvo comm_period_0_no_output [of d p dt0 "snd w"] by auto
  then have "\<not> isfinite (fst (control_law p d ?dt ?s1))"
    by (simp add: control_law_value_indep [of p d ?dt ?dt "snd w" dt0])
  then have u: "update_control p d ?dt ?s1 = stop (snd (control_law p d ?dt ?s1))"
    using run by (intro update_control_stop)
  have i: "control_thread_iteration p d w =
      ((motor_timer_hnsec d, fst (update_control p d ?dt ?s1)),
       snd (update_control p d ?dt ?s1))"
    by (simp add: control_thread_iteration_def Let_def split_beta)
  show ?thesis by (simp only: i u fst_conv snd_conv stop_fields)
qed

theorem no_valid_output_forces_stop_witness:
  "motor_get_state (readings MOTOR_STATE_RUNNING 0 (Fin 12) 10000) = MOTOR_STATE_RUNNING \<and>
   motor_get_comm_period_hnsec (readings MOTOR_STATE_RUNNING 0 (Fin 12) 10000) = 0 \<and>
   control_thread_iteration configured (readings MOTOR_STATE_RUNNING 0 (Fin 12) 10000)
     (0, initial\<lparr>limit_mask := 2, dc_actual := Fin (1 / 2), dc_openloop_setpoint := Fin 1\<rparr>)
   = ((10000, initial), [Motor_stop])"
proof -
  have r: "motor_get_state (readings MOTOR_STATE_RUNNING 0 (Fin 12) 10000)
      = MOTOR_STATE_RUNNING"
    by (simp add: readings_def)
  have z: "motor_get_comm_period_hnsec (readings MOTOR_STATE_RUNNING 0 (Fin 12) 10000) = 0"
    by (simp add: readings_def)
  show ?thesis
    using no_valid_output_forces_stop [OF r disjI2 [OF z], of configured]
    by (simp add: model_defs)
qed

text \<open>
  C4. \<open>update_control_rpm\<close> returns NaN whatever its argument. So an iteration of the
  control thread that finds the motor running in the RPM mode commands the driver to stop
  and never sets a duty cycle.
\<close>

theorem rpm_mode_always_stops:
  assumes run: "motor_get_state d = MOTOR_STATE_RUNNING"
    and m: "mode (snd w) = MOTORCTL_MODE_RPM"
  shows "update_control_rpm dt = NaN \<and>
         snd (control_thread_iteration p d w) = [Motor_stop] \<and>
         (\<forall>x. Motor_set_duty_cycle x \<notin> set (snd (control_thread_iteration p d w)))"
proof -
  let ?dt = "fdiv (float_of_u64 (motor_timer_hnsec d - fst w)) (Fin (real HNSEC_PER_SEC))"
  let ?s1 = "update_filters p d ?dt (snd w)"
  have "mode ?s1 = MOTORCTL_MODE_RPM" using m by simp
  then have "fst (control_law p d ?dt ?s1) = NaN"
    by (simp add: control_law_def update_control_rpm_def)
  then have "\<not> isfinite (fst (control_law p d ?dt ?s1))" by simp
  then have u: "update_control p d ?dt ?s1 = stop (snd (control_law p d ?dt ?s1))"
    using run by (intro update_control_stop)
  have i: "snd (control_thread_iteration p d w) = snd (update_control p d ?dt ?s1)"
    by (simp add: control_thread_iteration_def Let_def split_beta)
  have "snd (control_thread_iteration p d w) = [Motor_stop]"
    by (simp only: i u stop_fields)
  then show ?thesis by (simp add: update_control_rpm_def)
qed

theorem rpm_mode_always_stops_witness:
  "motor_get_state (readings MOTOR_STATE_RUNNING 1500 (Fin 12) 10000) = MOTOR_STATE_RUNNING \<and>
   mode (snd (0 :: 64 word, initial\<lparr>mode := MOTORCTL_MODE_RPM, rpm_setpoint := 3000,
                                     dc_actual := Fin (1 / 6)\<rparr>)) = MOTORCTL_MODE_RPM \<and>
   control_thread_iteration configured (readings MOTOR_STATE_RUNNING 1500 (Fin 12) 10000)
     (0, initial\<lparr>mode := MOTORCTL_MODE_RPM, rpm_setpoint := 3000, dc_actual := Fin (1 / 6)\<rparr>)
   = ((10000, initial\<lparr>mode := MOTORCTL_MODE_RPM\<rparr>), [Motor_stop])"
proof -
  have r: "motor_get_state (readings MOTOR_STATE_RUNNING 1500 (Fin 12) 10000)
      = MOTOR_STATE_RUNNING"
    by (simp add: readings_def)
  have m: "mode (snd (0 :: 64 word, initial\<lparr>mode := MOTORCTL_MODE_RPM, rpm_setpoint := 3000,
      dc_actual := Fin (1 / 6)\<rparr>)) = MOTORCTL_MODE_RPM"
    by simp
  show ?thesis
    using rpm_mode_always_stops [OF r m, of NaN configured]
    by (simp add: model_defs)
qed

subsection \<open>Initialisation\<close>

lemma motorctl_init_driver_fails:
  "motor_init \<noteq> 0 \<Longrightarrow> motorctl_init motor_init d = Inr (motor_init, [], params0, state0)"
  by (simp add: motorctl_init_def)

lemma configure_returns:
  "motor_get_limit_comm_period_hnsec d \<noteq> 0 \<Longrightarrow> \<exists>p. configure d params0 = Inr p"
  by (simp add: configure_def comm_period_to_rpm_def Let_def word_sless_alt)

lemma motorctl_init_voltage_fails:
  assumes l: "motor_get_limit_comm_period_hnsec d \<noteq> 0"
    and v: "fless (motor_get_input_voltage d) MIN_VALID_INPUT_VOLTAGE \<or>
            fgreater (motor_get_input_voltage d) MAX_VALID_INPUT_VOLTAGE"
  shows "\<exists>p. motorctl_init 0 d =
              Inr (- 1, [ChMtxInit, ChEvtInit, Configure, Init_filters], p,
                   init_filters d state0)"
proof -
  obtain p where c: "configure d params0 = Inr p" using configure_returns [OF l] by blast
  have i: "input_voltage (init_filters d state0) = motor_get_input_voltage d"
    by (simp add: init_filters_def)
  show ?thesis using v by (simp add: motorctl_init_def c i Let_def)
qed

text \<open>
  A seeded voltage that is a number (or an infinity) below 4 V or above 40 V, 0 V in
  particular, makes \<open>motorctl_init\<close> return -1 without creating the control thread,
  provided the driver's smallest commutation period is not 0; a failure of \<open>motor_init\<close>
  is returned at once, before anything else is done.
\<close>

lemma motorctl_init_rejects:
  "(motor_init \<noteq> 0 \<longrightarrow>
      motorctl_init motor_init d = Inr (motor_init, [], params0, state0)) \<and>
   (motor_init = 0 \<longrightarrow> motor_get_limit_comm_period_hnsec d \<noteq> 0 \<longrightarrow>
    (fless (motor_get_input_voltage d) MIN_VALID_INPUT_VOLTAGE \<or>
     fgreater (motor_get_input_voltage d) MAX_VALID_INPUT_VOLTAGE) \<longrightarrow>
      (\<exists>p. motorctl_init motor_init d =
              Inr (- 1, [ChMtxInit, ChEvtInit, Configure, Init_filters], p,
                   init_filters d state0)))"
  using motorctl_init_driver_fails [of motor_init d] motorctl_init_voltage_fails [of d]
  by blast

lemma motorctl_init_zero_volts:
  "motorctl_init 0 (readings st cp (Fin 0) t)
     = Inr (- 1, [ChMtxInit, ChEvtInit, Configure, Init_filters], configured,
            state0\<lparr>input_voltage := Fin 0, input_current := Fin 1\<rparr>)"
  by (simp add: model_defs)

text \<open>
  C9. A seeded input voltage that is a NaN is outside the valid band from 4 V to 40 V,
  but the test \<open>v < 4.0 || v > 40.0\<close> is false for it: \<open>motorctl_init\<close> returns 0 and
  creates the control thread, with NaN as the filtered voltage. And when the driver
  reports 0 as its smallest commutation period, \<open>configure\<close> divides by zero before the
  voltage is sampled, so that \<open>motorctl_init\<close> returns no status at all, whatever the
  voltage.
\<close>

theorem motorctl_init_nan_voltage:
  "motorctl_init 0 (readings st cp NaN t)
     = Inr (0, [ChMtxInit, ChEvtInit, Configure, Init_filters, ChThdCreateStatic],
            configured, state0\<lparr>input_voltage := NaN, input_current := Fin 1\<rparr>) \<and>
   motorctl_init 0 (d\<lparr>motor_get_limit_comm_period_hnsec := 0\<rparr>) = Inl Division_by_zero"
  by (simp add: model_defs)

subsection \<open>The setters\<close>

lemma in_unit_iff: "in_unit x \<longleftrightarrow> (\<exists>r. x = Fin r \<and> 0 \<le> r \<and> r \<le> 1)"
  by (cases x) (auto simp: in_unit_def)

text \<open>
  On every float but NaN (the infinities included) \<open>motorctl_set_duty_cycle\<close> selects the
  open-loop mode and stores the value clamped to the interval from 0 to 1;
  \<open>motorctl_set_rpm\<close> selects the RPM mode and stores the smaller of its argument and
  the RPM ceiling.
\<close>

lemma set_duty_cycle_clamps:
  "dc \<noteq> NaN \<Longrightarrow>
   motorctl_set_duty_cycle dc s =
     s\<lparr>mode := MOTORCTL_MODE_OPENLOOP,
       dc_openloop_setpoint :=
         (if fless dc (Fin 0) then Fin 0 else if fless (Fin 1) dc then Fin 1 else dc)\<rparr> \<and>
   in_unit (dc_openloop_setpoint (motorctl_set_duty_cycle dc s))"
  by (cases dc) (auto simp: motorctl_set_duty_cycle_def fgreater_def in_unit_def Let_def)

lemma set_rpm_clamps:
  "motorctl_set_rpm p rpm s =
     s\<lparr>mode := MOTORCTL_MODE_RPM, rpm_setpoint := min rpm (rpm_max p)\<rparr> \<and>
   rpm_setpoint (motorctl_set_rpm p rpm s) \<le> rpm_max p"
  by (auto simp: motorctl_set_rpm_def Let_def min_def)

text \<open>
  C7. The two comparisons of \<open>motorctl_set_duty_cycle\<close> are both false on a NaN, so a
  NaN argument is stored as the open-loop setpoint unclamped.
\<close>

theorem set_duty_cycle_nan:
  "dc_openloop_setpoint (motorctl_set_duty_cycle NaN s) = NaN \<and>
   \<not> in_unit (dc_openloop_setpoint (motorctl_set_duty_cycle NaN s))"
  by (simp add: motorctl_set_duty_cycle_def fgreater_def in_unit_def Let_def)

subsection \<open>The open-loop throttle-back\<close>

lemma real_half_less: "0 < (n::nat) \<Longrightarrow> real n - real (n div 2) \<noteq> 0"
proof -
  assume "0 < n"
  then have "n div 2 < n" by simp
  then have "real (n div 2) < real n" by (simp only: of_nat_less_iff)
  then show ?thesis by simp
qed

lemma throttle_value:
  "comm_period_limit p \<noteq> 0 \<Longrightarrow>
   open_loop_throttle_dc p cp =
     Fin ((real (unat cp) - real (unat (comm_period_limit p) div 2))
          / (real (unat (comm_period_limit p)) - real (unat (comm_period_limit p) div 2)))"
proof -
  assume l: "comm_period_limit p \<noteq> 0"
  have "0 < unat (comm_period_limit p)" using l by (simp add: unat_gt_0)
  then have "real (unat (comm_period_limit p)) - real (unat (comm_period_limit p) div 2) \<noteq> 0"
    by (rule real_half_less)
  then show ?thesis
    by (simp add: open_loop_throttle_dc_def float_of_u32_def fsub_def Let_def unat_div
        del: of_nat_unat)
qed

text \<open>
  C5 (amended). With \<open>c1\<close> the commutation-period limit and \<open>c0\<close> its integer half
  (\<open>comm_period_limit / 2\<close> is an integer division), the throttle-back value is
  \<open>(period - c0) / (c1 - c0)\<close>; it is 1 at \<open>period = c1\<close> and 0 at \<open>period = c0\<close>.
\<close>

theorem open_loop_throttle_dc_endpoints:
  assumes l: "comm_period_limit p \<noteq> 0"
  shows "open_loop_throttle_dc p cp =
           Fin ((real (unat cp) - real (unat (comm_period_limit p) div 2))
                / (real (unat (comm_period_limit p)) - real (unat (comm_period_limit p) div 2))) \<and>
         open_loop_throttle_dc p (comm_period_limit p) = Fin 1 \<and>
         open_loop_throttle_dc p (comm_period_limit p div 2) = Fin 0"
proof -
  have "0 < unat (comm_period_limit p)" using l by (simp add: unat_gt_0)
  then have n: "real (unat (comm_period_limit p)) - real (unat (comm_period_limit p) div 2) \<noteq> 0"
    by (rule real_half_less)
  have a: "open_loop_throttle_dc p (comm_period_limit p) = Fin 1"
    using n by (simp add: throttle_value [OF l] del: of_nat_unat)
  have b: "open_loop_throttle_dc p (comm_period_limit p div 2) = Fin 0"
    by (simp add: throttle_value [OF l] unat_div del: of_nat_unat)
  show ?thesis using a b throttle_value [OF l] by blast
qed

theorem open_loop_throttle_dc_endpoints_witness:
  "comm_period_limit configured \<noteq> 0 \<and>
   open_loop_throttle_dc configured 750 = Fin (1 / 2) \<and>
   open_loop_throttle_dc configured (comm_period_limit configured) = Fin 1 \<and>
   open_loop_throttle_dc configured (comm_period_limit configured div 2) = Fin 0"
proof -
  have l: "comm_period_limit configured \<noteq> 0" by (simp add: configured_def)
  show ?thesis
    using open_loop_throttle_dc_endpoints [OF l, of 750] l
    by (simp add: configured_def)
qed

text \<open>
  C5 as stated fails: at the limit of 1000 ticks the value is 1, not 0.5, and just below
  the limit the open-loop law returns a value just below 1. The value 0.5 belongs to the
  period 750, halfway between \<open>c0\<close> and \<open>c1\<close>.
\<close>

theorem throttle_at_limit_counterexample:
  "comm_period_limit configured = 1000 \<and>
   open_loop_throttle_dc configured 1000 = Fin 1 \<and>
   open_loop_throttle_dc configured 1000 \<noteq> Fin (1 / 2) \<and>
   fst (update_control_open_loop configured (readings MOTOR_STATE_RUNNING 999 (Fin 12) 10000)
          (initial\<lparr>dc_openloop_setpoint := Fin 1\<rparr>)) = Fin (499 / 500)"
  by (simp add: model_defs)

subsection \<open>The slope limiter\<close>

lemma control_law_dc_actual: "dc_actual (snd (control_law p d dt s)) = dc_actual s"
  by (simp add: control_law_def update_control_open_loop_def Let_def
      split: motorctl_mode.splits)



lemma slope_control_finite:
  assumes a: "dc_actual s = Fin a" and m: "dc_step_max p = Fin m"
    and k: "dc_slope p = Fin k"
  shows "slope_control p (Fin t) (Fin c) s =
     (if m < \<bar>c - a\<bar>
      then (s\<lparr>limit_mask := limit_mask s OR MOTORCTL_LIMIT_ACCEL,
              dc_actual := Fin (if c < a then a - k * t else a + k * t)\<rparr>,
            [Motor_set_duty_cycle (Fin (if c < a then a - k * t else a + k * t))])
      else (s\<lparr>limit_mask := limit_mask s AND NOT MOTORCTL_LIMIT_ACCEL, dc_actual := Fin c\<rparr>,
            [Motor_set_duty_cycle (Fin c)]))"
  by (simp add: slope_control_def a m k fgreater_def fsub_def Let_def)






subsection \<open>The limit mask while the motor is not running\<close>

lemma limit_mask_set_duty_cycle: "limit_mask (motorctl_set_duty_cycle dc s) = limit_mask s"
  by (simp add: motorctl_set_duty_cycle_def Let_def)

lemma limit_mask_set_rpm: "limit_mask (motorctl_set_rpm p rpm s) = limit_mask s"
  by (simp add: motorctl_set_rpm_def Let_def)

lemma limit_mask_non_running:
  "limit_mask (fst (update_control_non_running p d s))
     = (if motor_get_state d = MOTOR_STATE_STARTING then limit_mask s else 0)"
  by (simp add: update_control_non_running_def Let_def)

text \<open>
  C6 (amended). While the driver does not report the motor as running, no operation sets
  a bit of the limit mask: an iteration of the control thread leaves the mask as it is
  when the driver is starting the motor and clears it to empty otherwise, and the setters
  do not touch it.
\<close>

theorem limit_mask_while_not_running:
  assumes nr: "motor_get_state d \<noteq> MOTOR_STATE_RUNNING"
  shows "limit_mask (snd (fst (control_thread_iteration p d w)))
           = (if motor_get_state d = MOTOR_STATE_STARTING then limit_mask (snd w) else 0) \<and>
         limit_mask (motorctl_set_duty_cycle dc s) = limit_mask s \<and>
         limit_mask (motorctl_set_rpm p rpm s) = limit_mask s"
proof -
  have "limit_mask (snd (fst (control_thread_iteration p d w)))
      = (if motor_get_state d = MOTOR_STATE_STARTING then limit_mask (snd w) else 0)"
    using nr
    by (simp add: control_thread_iteration_def update_control_def Let_def split_beta
        limit_mask_non_running update_filters_def)
  then show ?thesis by (simp add: limit_mask_set_duty_cycle limit_mask_set_rpm)
qed

theorem limit_mask_while_not_running_witness:
  "motor_get_state (readings MOTOR_STATE_STARTING 0 (Fin 12) 10000) \<noteq> MOTOR_STATE_RUNNING \<and>
   limit_mask (snd (fst (control_thread_iteration configured
       (readings MOTOR_STATE_STARTING 0 (Fin 12) 10000)
       (0, initial\<lparr>limit_mask := 2\<rparr>)))) = 2 \<and>
   limit_mask (motorctl_set_duty_cycle (Fin 1) (initial\<lparr>limit_mask := 2\<rparr>)) = 2 \<and>
   limit_mask (motorctl_set_rpm configured 3000 (initial\<lparr>limit_mask := 2\<rparr>)) = 2"
proof -
  have nr: "motor_get_state (readings MOTOR_STATE_STARTING 0 (Fin 12) 10000)
      \<noteq> MOTOR_STATE_RUNNING"
    by (simp add: readings_def)
  show ?thesis
    using limit_mask_while_not_running [OF nr, of configured
        "(0, initial\<lparr>limit_mask := 2\<rparr>)" "Fin 1" "initial\<lparr>limit_mask := 2\<rparr>" 3000] nr
    by (simp add: readings_def)
qed

text \<open>
  C6 as stated fails: an iteration that finds the motor idle modifies the mask. The
  acceleration flag, set by a running iteration, is cleared by the next iteration if the
  driver then reports the motor idle.
\<close>

theorem limit_mask_cleared_while_idle_counterexample:
  "limit_mask (snd (run configured (0, initial)
      [Set_duty_cycle (Fin 1),
       Worker_iteration (readings MOTOR_STATE_IDLE 0 (Fin 12) 10000),
       Worker_iteration (readings MOTOR_STATE_RUNNING 2000 (Fin 12) 20000)]))
     = MOTORCTL_LIMIT_ACCEL \<and>
   motor_get_state (readings MOTOR_STATE_IDLE 0 (Fin 12) 30000) = MOTOR_STATE_IDLE \<and>
   limit_mask (snd (run configured (0, initial)
      [Set_duty_cycle (Fin 1),
       Worker_iteration (readings MOTOR_STATE_IDLE 0 (Fin 12) 10000),
       Worker_iteration (readings MOTOR_STATE_RUNNING 2000 (Fin 12) 20000),
       Worker_iteration (readings MOTOR_STATE_IDLE 0 (Fin 12) 30000)]))
     = 0 \<and>
   MOTORCTL_LIMIT_ACCEL \<noteq> 0"
  by (simp add: model_defs)

subsection \<open>The ranges of the setpoints and of the duty cycle\<close>

lemma in_unit_Fin [simp]: "in_unit (Fin r) \<longleftrightarrow> 0 \<le> r \<and> r \<le> 1"
  by (auto simp: in_unit_def)

lemma in_unit_not [simp]: "\<not> in_unit NaN" "\<not> in_unit PInf" "\<not> in_unit NInf"
  by (simp_all add: in_unit_def)

lemma configure_values: "configure d params0 = Inr p \<Longrightarrow> configured_values p"
  by (auto simp: configure_def configured_values_def b32_one_fifth Let_def split: sum.splits)

lemma motorctl_init_success:
  assumes "motorctl_init 0 d0 = Inr (0, steps, p, s0)"
  shows "configured_values p \<and> s0 = init_filters d0 state0 \<and>
         \<not> fless (motor_get_input_voltage d0) (Fin 4) \<and>
         \<not> fless (Fin 40) (motor_get_input_voltage d0)"
  using assms
  by (auto simp: motorctl_init_def Let_def init_filters_def fgreater_def
      MIN_VALID_INPUT_VOLTAGE_def MAX_VALID_INPUT_VOLTAGE_def
      dest: configure_values split: sum.splits if_splits)


lemma control_law_frame [simp]:
  "dc_openloop_setpoint (snd (control_law p d dt s)) = dc_openloop_setpoint s"
  "rpm_setpoint (snd (control_law p d dt s)) = rpm_setpoint s"
  "input_voltage (snd (control_law p d dt s)) = input_voltage s"
  by (simp_all add: control_law_def update_control_open_loop_def Let_def
      split: motorctl_mode.splits)

lemma slope_control_frame [simp]:
  "dc_openloop_setpoint (fst (slope_control p dt c s)) = dc_openloop_setpoint s"
  "rpm_setpoint (fst (slope_control p dt c s)) = rpm_setpoint s"
  "input_voltage (fst (slope_control p dt c s)) = input_voltage s"
  by (simp_all add: slope_control_def Let_def split_beta)

lemma non_running_frame [simp]:
  "dc_openloop_setpoint (fst (update_control_non_running p d s)) = dc_openloop_setpoint s"
  "rpm_setpoint (fst (update_control_non_running p d s)) = rpm_setpoint s"
  "input_voltage (fst (update_control_non_running p d s)) = input_voltage s"
  by (simp_all add: update_control_non_running_def Let_def)

lemma update_control_setpoints:
  "setpoints_ok p s \<Longrightarrow> setpoints_ok p (fst (update_control p d dt s))"
  by (simp add: update_control_def setpoints_ok_def split_beta stop_def)

lemma update_control_voltage [simp]:
  "input_voltage (fst (update_control p d dt s)) = input_voltage s"
  by (simp add: update_control_def split_beta stop_def)

lemma update_filters_setpoints:
  "setpoints_ok p (update_filters p d dt s) = setpoints_ok p s"
  by (simp add: setpoints_ok_def update_filters_def Let_def)

lemma iteration_state:
  "snd (fst (control_thread_iteration p d w)) =
     fst (update_control p d
            (fdiv (float_of_u64 (motor_timer_hnsec d - fst w)) (Fin (real HNSEC_PER_SEC)))
            (update_filters p d
               (fdiv (float_of_u64 (motor_timer_hnsec d - fst w)) (Fin (real HNSEC_PER_SEC)))
               (snd w)))"
  "fst (fst (control_thread_iteration p d w)) = motor_timer_hnsec d"
  by (simp_all add: control_thread_iteration_def Let_def split_beta)

lemma iteration_setpoints:
  "setpoints_ok p (snd w) \<Longrightarrow> setpoints_ok p (snd (fst (control_thread_iteration p d w)))"
  by (simp only: iteration_state update_control_setpoints update_filters_setpoints)

lemma step_setpoints:
  "e \<noteq> Set_duty_cycle NaN \<Longrightarrow> setpoints_ok p (snd w) \<Longrightarrow> setpoints_ok p (snd (step p w e))"
proof (cases e)
  case (Worker_iteration d)
  assume "setpoints_ok p (snd w)"
  then show ?thesis using Worker_iteration by (simp add: iteration_setpoints)
next
  case (Set_duty_cycle dc)
  assume "e \<noteq> Set_duty_cycle NaN" and ok: "setpoints_ok p (snd w)"
  then have "dc \<noteq> NaN" using Set_duty_cycle by simp
  then have "in_unit (dc_openloop_setpoint (motorctl_set_duty_cycle dc (snd w)))"
    by (rule set_duty_cycle_clamps [THEN conjunct2])
  moreover have "rpm_setpoint (motorctl_set_duty_cycle dc (snd w)) = rpm_setpoint (snd w)"
    by (simp add: motorctl_set_duty_cycle_def Let_def)
  ultimately show ?thesis using Set_duty_cycle ok by (simp add: setpoints_ok_def)
next
  case (Set_rpm rpm)
  assume ok: "setpoints_ok p (snd w)"
  then show ?thesis using Set_rpm
    by (auto simp: setpoints_ok_def motorctl_set_rpm_def Let_def)
qed

lemma run_setpoints:
  "Set_duty_cycle NaN \<notin> set evs \<Longrightarrow> setpoints_ok p (snd w) \<Longrightarrow>
   setpoints_ok p (snd (run p w evs))"
proof (induction evs arbitrary: w)
  case Nil
  then show ?case by simp
next
  case (Cons e es)
  from Cons.prems have "e \<noteq> Set_duty_cycle NaN" and r: "Set_duty_cycle NaN \<notin> set es" by auto
  then have "setpoints_ok p (snd (step p w e))" using Cons.prems(2) by (intro step_setpoints)
  then show ?case using Cons.IH [OF r] by simp
qed


lemma finite_ge_iff: "isfinite x \<and> fge x (Fin b) \<longleftrightarrow> (\<exists>v. x = Fin v \<and> b \<le> v)"
  by (cases x) auto

lemma outputs_ok_iff:
  "outputs_ok s \<longleftrightarrow>
     (\<exists>a v. dc_actual s = Fin a \<and> 0 \<le> a \<and> a \<le> 1 \<and> input_voltage s = Fin v \<and> 2 \<le> v)"
  by (cases "dc_actual s"; cases "input_voltage s") (auto simp: outputs_ok_def)

lemma lowpass_ge:
  assumes t: "0 \<le> t" and v: "2 \<le> v" and r: "2 \<le> r"
  shows "\<exists>v'. lowpass (Fin v) (Fin r) (Fin 2) (Fin t) = Fin v' \<and> 2 \<le> v'"
proof -
  have pos: "0 < t + 2" using t by simp
  have "2 * (t + 2) \<le> t * r + 2 * v"
  proof -
    have "t * 2 \<le> t * r" using t r by (rule mult_left_mono [OF _ _, rotated]) 
    then show ?thesis using v by simp
  qed
  then have "2 \<le> (t * r + 2 * v) / (t + 2)" using pos by (simp add: pos_le_divide_eq)
  moreover have "lowpass (Fin v) (Fin r) (Fin 2) (Fin t) = Fin ((t * r + 2 * v) / (t + 2))"
    using pos by (simp add: lowpass_def)
  ultimately show ?thesis by blast
qed

lemma elapsed_Fin:
  "fdiv (float_of_u64 x) (Fin (real HNSEC_PER_SEC)) = Fin (real (unat x) / 10000000) \<and>
   0 \<le> real (unat x) / 10000000"
  by (simp add: float_of_u64_def HNSEC_PER_SEC_def del: of_nat_unat)

lemma throttle_nonneg:
  assumes lt: "cp < comm_period_limit p" and ge: "comm_period_limit p div 2 \<le> cp"
  shows "\<exists>x. open_loop_throttle_dc p cp = Fin x \<and> 0 \<le> x"
proof -
  have l: "comm_period_limit p \<noteq> 0" using lt by auto
  have a: "unat (comm_period_limit p) div 2 \<le> unat cp"
    using ge by (simp add: word_le_nat_alt unat_div)
  have b: "unat cp < unat (comm_period_limit p)" using lt by (simp add: word_less_nat_alt)
  have "real (unat (comm_period_limit p) div 2) \<le> real (unat cp)"
    using a by (simp only: of_nat_le_iff)
  moreover have "unat (comm_period_limit p) div 2 < unat (comm_period_limit p)"
    using a b by linarith
  then have "real (unat (comm_period_limit p) div 2) < real (unat (comm_period_limit p))"
    by (simp only: of_nat_less_iff)
  ultimately have "0 \<le> (real (unat cp) - real (unat (comm_period_limit p) div 2))
      / (real (unat (comm_period_limit p)) - real (unat (comm_period_limit p) div 2))"
    by (intro divide_nonneg_pos) simp_all
  then show ?thesis using throttle_value [OF l, of cp] by blast
qed

lemma open_loop_candidate:
  assumes sp: "in_unit (dc_openloop_setpoint s)"
    and cp: "motor_get_comm_period_hnsec d = 0 \<or>
             comm_period_limit p div 2 \<le> motor_get_comm_period_hnsec d"
  shows "fst (update_control_open_loop p d s) = NaN \<or>
         in_unit (fst (update_control_open_loop p d s))"
proof -
  obtain q where q: "dc_openloop_setpoint s = Fin q" "0 \<le> q" "q \<le> 1"
    using sp by (auto simp: in_unit_iff)
  show ?thesis
  proof (cases "motor_get_comm_period_hnsec d \<noteq> 0 \<and>
      motor_get_comm_period_hnsec d < comm_period_limit p \<and>
      fless (open_loop_throttle_dc p (motor_get_comm_period_hnsec d)) (dc_openloop_setpoint s)")
    case True
    then obtain x where x: "open_loop_throttle_dc p (motor_get_comm_period_hnsec d) = Fin x"
        "0 \<le> x"
      using throttle_nonneg [of "motor_get_comm_period_hnsec d" p] cp by blast
    have "x < q" using True x q by simp
    then show ?thesis using True x q by (simp add: update_control_open_loop_def Let_def)
  next
    case False
    then show ?thesis using q
      by (auto simp: update_control_open_loop_def Let_def fgreater_def)
  qed
qed

lemma control_law_candidate:
  assumes sp: "in_unit (dc_openloop_setpoint s)"
    and cp: "motor_get_comm_period_hnsec d = 0 \<or>
             comm_period_limit p div 2 \<le> motor_get_comm_period_hnsec d"
  shows "fst (control_law p d dt s) = NaN \<or> in_unit (fst (control_law p d dt s))"
  using open_loop_candidate [OF sp cp]
  by (simp add: control_law_def update_control_rpm_def split: motorctl_mode.splits)


lemma slope_control_in_unit:
  assumes cv: "configured_values p"
    and a: "dc_actual s = Fin a" "0 \<le> a" "a \<le> 1"
    and c: "0 \<le> c" "c \<le> 1"
    and t: "0 \<le> t" "t \<le> 13421773 / 67108864"
  shows "in_unit (dc_actual (fst (slope_control p (Fin t) (Fin c) s)))"
proof -
  have m: "dc_step_max p = Fin (13421773 / 67108864)" and k: "dc_slope p = Fin 1"
    using cv by (simp_all add: configured_values_def)
  show ?thesis
    unfolding slope_control_finite [OF a(1) m k]
    using a c t by auto
qed

lemma update_control_in_unit:
  assumes cv: "configured_values p"
    and sp: "in_unit (dc_openloop_setpoint s)"
    and a: "in_unit (dc_actual s)"
    and v: "input_voltage s = Fin v" "2 \<le> v"
    and t: "0 \<le> t" "t \<le> 13421773 / 67108864"
    and cp: "motor_get_state d \<noteq> MOTOR_STATE_RUNNING \<or>
             motor_get_comm_period_hnsec d = 0 \<or>
             comm_period_limit p div 2 \<le> motor_get_comm_period_hnsec d"
  shows "in_unit (dc_actual (fst (update_control p d (Fin t) s)))"
proof (cases "motor_get_state d = MOTOR_STATE_RUNNING")
  case False
  have sv: "spinup_voltage p = Fin 2" using cv by (simp add: configured_values_def)
  have "0 \<le> 2 / v \<and> 2 / v \<le> 1" using v(2) by (simp add: pos_divide_le_eq)
  then show ?thesis using False a v
    by (simp add: update_control_def update_control_non_running_def Let_def sv)
next
  case True
  obtain a' where a': "dc_actual s = Fin a'" "0 \<le> a'" "a' \<le> 1"
    using a by (auto simp: in_unit_iff)
  let ?s1 = "snd (control_law p d (Fin t) s)"
  have a1: "dc_actual ?s1 = Fin a'" using a'(1) by (simp only: control_law_dc_actual)
  have cp': "motor_get_comm_period_hnsec d = 0 \<or>
             comm_period_limit p div 2 \<le> motor_get_comm_period_hnsec d"
    using cp True by simp
  from control_law_candidate [OF sp cp', of "Fin t"]
  show ?thesis
  proof
    assume "fst (control_law p d (Fin t) s) = NaN"
    then show ?thesis using True by (simp add: update_control_def split_beta stop_def)
  next
    assume "in_unit (fst (control_law p d (Fin t) s))"
    then obtain c where c: "fst (control_law p d (Fin t) s) = Fin c" "0 \<le> c" "c \<le> 1"
      by (auto simp: in_unit_iff)
    have "update_control p d (Fin t) s = slope_control p (Fin t) (Fin c) ?s1"
      using True c(1) by (simp add: update_control_def split_beta)
    then show ?thesis
      using slope_control_in_unit [OF cv a1 a'(2,3) c(2,3) t] by simp
  qed
qed

lemma iteration_outputs:
  assumes cv: "configured_values p"
    and sp: "setpoints_ok p (snd w)"
    and ok: "outputs_ok (snd w)"
    and nom: "nominal_readings p (fst w) d"
  shows "outputs_ok (snd (fst (control_thread_iteration p d w)))"
proof -
  let ?x = "motor_timer_hnsec d - fst w"
  let ?t = "real (unat ?x) / 10000000"
  let ?dt = "fdiv (float_of_u64 ?x) (Fin (real HNSEC_PER_SEC))"
  have dt: "?dt = Fin ?t" and t0: "0 \<le> ?t" using elapsed_Fin [of ?x] by simp_all
  have m: "dc_step_max p = Fin (13421773 / 67108864)" and k: "dc_slope p = Fin 1"
    and sv: "spinup_voltage p = Fin 2" and tau: "voltage_current_lowpass_tau p = Fin 2"
    using cv by (simp_all add: configured_values_def)
  obtain r where r: "motor_get_input_voltage d = Fin r" "2 \<le> r"
    using nom finite_ge_iff [of "motor_get_input_voltage d" 2]
    by (auto simp: nominal_readings_def sv)
  have t1: "?t \<le> 13421773 / 67108864"
    using nom by (simp add: nominal_readings_def m k dt del: of_nat_unat)
  have cp: "motor_get_state d \<noteq> MOTOR_STATE_RUNNING \<or>
             motor_get_comm_period_hnsec d = 0 \<or>
             comm_period_limit p div 2 \<le> motor_get_comm_period_hnsec d"
    using nom by (simp add: nominal_readings_def)
  obtain a v where av: "dc_actual (snd w) = Fin a" "0 \<le> a" "a \<le> 1"
      "input_voltage (snd w) = Fin v" "2 \<le> v"
    using ok by (auto simp: outputs_ok_iff)
  let ?s1 = "update_filters p d ?dt (snd w)"
  obtain v' where v': "lowpass (Fin v) (Fin r) (Fin 2) (Fin ?t) = Fin v'" "2 \<le> v'"
    using lowpass_ge [OF t0 av(5) r(2)] by blast
  have iv: "input_voltage ?s1 = Fin v'"
    by (simp add: update_filters_def Let_def av(4) r(1) tau dt v'(1) del: of_nat_unat)
  have a1: "in_unit (dc_actual ?s1)" using av by simp
  have sp1: "in_unit (dc_openloop_setpoint ?s1)" using sp by (simp add: setpoints_ok_def)
  have "in_unit (dc_actual (fst (update_control p d (Fin ?t) ?s1)))"
    using cv sp1 a1 iv v'(2) t0 t1 cp by (rule update_control_in_unit)
  then have A: "in_unit (dc_actual (fst (update_control p d ?dt ?s1)))"
    by (simp only: dt)
  have B: "input_voltage (fst (update_control p d ?dt ?s1)) = Fin v'"
    using iv by simp
  have "outputs_ok (fst (update_control p d ?dt ?s1))"
    using v'(2) by (simp add: outputs_ok_def A iv del: of_nat_unat)
  then show ?thesis by (simp only: iteration_state)
qed


lemma setter_outputs:
  "outputs_ok (motorctl_set_duty_cycle dc s) = outputs_ok s"
  "outputs_ok (motorctl_set_rpm p rpm s) = outputs_ok s"
  by (simp_all add: outputs_ok_def motorctl_set_duty_cycle_def motorctl_set_rpm_def Let_def)

lemma run_outputs:
  assumes cv: "configured_values p"
  shows "Set_duty_cycle NaN \<notin> set evs \<Longrightarrow> setpoints_ok p (snd w) \<Longrightarrow> outputs_ok (snd w) \<Longrightarrow>
         nominal p (fst w) evs \<Longrightarrow> outputs_ok (snd (run p w evs))"
proof (induction evs arbitrary: w)
  case Nil
  then show ?case by simp
next
  case (Cons e es)
  from Cons.prems(1) have ne: "e \<noteq> Set_duty_cycle NaN" and r: "Set_duty_cycle NaN \<notin> set es"
    by auto
  have sp: "setpoints_ok p (snd (step p w e))"
    using ne Cons.prems(2) by (rule step_setpoints)
  have "outputs_ok (snd (step p w e)) \<and> nominal p (fst (step p w e)) es"
  proof (cases e)
    case (Worker_iteration d)
    then have "nominal_readings p (fst w) d" and "nominal p (motor_timer_hnsec d) es"
      using Cons.prems(4) by simp_all
    then show ?thesis
      using Worker_iteration iteration_outputs [OF cv Cons.prems(2,3), of d]
      by (simp add: iteration_state)
  next
    case (Set_duty_cycle dc)
    then show ?thesis using Cons.prems(3,4) by (simp add: setter_outputs)
  next
    case (Set_rpm rpm)
    then show ?thesis using Cons.prems(3,4) by (simp add: setter_outputs)
  qed
  then show ?case using Cons.IH [OF r sp] by simp
qed

lemma init_state_ok:
  assumes init: "motorctl_init 0 d0 = Inr (0, steps, p, s0)"
  shows "configured_values p" and "setpoints_ok p s0"
    and "motor_get_input_voltage d0 \<noteq> NaN \<Longrightarrow> outputs_ok s0"
proof -
  note f = motorctl_init_success [OF init]
  show "configured_values p" using f by simp
  show "setpoints_ok p s0" using f by (simp add: setpoints_ok_def init_filters_def state0_def)
  assume n: "motor_get_input_voltage d0 \<noteq> NaN"
  show "outputs_ok s0"
    using f n
    by (cases "motor_get_input_voltage d0")
       (simp_all add: outputs_ok_def init_filters_def state0_def)
qed

text \<open>
  C1 (amended). After a successful \<open>motorctl_init\<close> and any sequence of iterations of
  the control thread and calls of the setters in which no duty-cycle command is a NaN,
  \<open>dc_openloop_setpoint\<close> is in the interval from 0 to 1 and \<open>rpm_setpoint\<close> does not
  exceed \<open>rpm_max\<close>. If moreover the seeded voltage is not a NaN and the sequence is
  nominal, \<open>dc_actual\<close> is in the interval from 0 to 1 as well.
\<close>

theorem setpoints_stay_in_range:
  assumes init: "motorctl_init 0 d0 = Inr (0, steps, p, s0)"
    and nonan: "Set_duty_cycle NaN \<notin> set evs"
  shows "in_unit (dc_openloop_setpoint (snd (run p (ts0, s0) evs))) \<and>
         rpm_setpoint (snd (run p (ts0, s0) evs)) \<le> rpm_max p \<and>
         (motor_get_input_voltage d0 \<noteq> NaN \<and> nominal p ts0 evs \<longrightarrow>
            in_unit (dc_actual (snd (run p (ts0, s0) evs))))"
proof -
  have "setpoints_ok p (snd (run p (ts0, s0) evs))"
    using nonan init_state_ok(2) [OF init] by (intro run_setpoints) simp_all
  moreover have "in_unit (dc_actual (snd (run p (ts0, s0) evs)))"
    if "motor_get_input_voltage d0 \<noteq> NaN" and "nominal p ts0 evs"
  proof -
    have "outputs_ok (snd (run p (ts0, s0) evs))"
      using init_state_ok(1) [OF init] nonan init_state_ok(2) [OF init]
        init_state_ok(3) [OF init that(1)] that(2)
      by (intro run_outputs) simp_all
    then show ?thesis by (simp add: outputs_ok_def)
  qed
  ultimately show ?thesis by (simp add: setpoints_ok_def)
qed

theorem setpoints_stay_in_range_witness:
  "motorctl_init 0 (readings MOTOR_STATE_IDLE 0 (Fin 12) 0)
     = Inr (0, [ChMtxInit, ChEvtInit, Configure, Init_filters, ChThdCreateStatic],
            configured, initial) \<and>
   Set_duty_cycle NaN \<notin> set
     [Set_duty_cycle (Fin 7), Set_rpm 99999,
      Worker_iteration (readings MOTOR_STATE_IDLE 0 (Fin 12) 10000),
      Set_duty_cycle (Fin 1),
      Worker_iteration (readings MOTOR_STATE_IDLE 0 (Fin 12) 20000),
      Worker_iteration (readings MOTOR_STATE_RUNNING 2000 (Fin 12) 30000)] \<and>
   motor_get_input_voltage (readings MOTOR_STATE_IDLE 0 (Fin 12) 0) \<noteq> NaN \<and>
   nominal configured 0
     [Set_duty_cycle (Fin 7), Set_rpm 99999,
      Worker_iteration (readings MOTOR_STATE_IDLE 0 (Fin 12) 10000),
      Set_duty_cycle (Fin 1),
      Worker_iteration (readings MOTOR_STATE_IDLE 0 (Fin 12) 20000),
      Worker_iteration (readings MOTOR_STATE_RUNNING 2000 (Fin 12) 30000)] \<and>
   in_unit (dc_openloop_setpoint (snd (run configured (0, initial)
     [Set_duty_cycle (Fin 7), Set_rpm 99999,
      Worker_iteration (readings MOTOR_STATE_IDLE 0 (Fin 12) 10000),
      Set_duty_cycle (Fin 1),
      Worker_iteration (readings MOTOR_STATE_IDLE 0 (Fin 12) 20000),
      Worker_iteration (readings MOTOR_STATE_RUNNING 2000 (Fin 12) 30000)]))) \<and>
   rpm_setpoint (snd (run configured (0, initial)
     [Set_duty_cycle (Fin 7), Set_rpm 99999,
      Worker_iteration (readings MOTOR_STATE_IDLE 0 (Fin 12) 10000),
      Set_duty_cycle (Fin 1),
      Worker_iteration (readings MOTOR_STATE_IDLE 0 (Fin 12) 20000),
      Worker_iteration (readings MOTOR_STATE_RUNNING 2000 (Fin 12) 30000)]))
     \<le> rpm_max configured \<and>
   in_unit (dc_actual (snd (run configured (0, initial)
     [Set_duty_cycle (Fin 7), Set_rpm 99999,
      Worker_iteration (readings MOTOR_STATE_IDLE 0 (Fin 12) 10000),
      Set_duty_cycle (Fin 1),
      Worker_iteration (readings MOTOR_STATE_IDLE 0 (Fin 12) 20000),
      Worker_iteration (readings MOTOR_STATE_RUNNING 2000 (Fin 12) 30000)])))"
proof -
  let ?evs = "[Set_duty_cycle (Fin 7), Set_rpm 99999,
      Worker_iteration (readings MOTOR_STATE_IDLE 0 (Fin 12) 10000),
      Set_duty_cycle (Fin 1),
      Worker_iteration (readings MOTOR_STATE_IDLE 0 (Fin 12) 20000),
      Worker_iteration (readings MOTOR_STATE_RUNNING 2000 (Fin 12) 30000)]"
  have i: "motorctl_init 0 (readings MOTOR_STATE_IDLE 0 (Fin 12) 0)
     = Inr (0, [ChMtxInit, ChEvtInit, Configure, Init_filters, ChThdCreateStatic],
            configured, initial)"
    by (rule motorctl_init_readings)
  have n: "Set_duty_cycle NaN \<notin> set ?evs" by simp
  have v: "motor_get_input_voltage (readings MOTOR_STATE_IDLE 0 (Fin 12) 0) \<noteq> NaN"
    by (simp add: readings_def)
  have m: "nominal configured 0 ?evs"
    by (simp add: nominal_readings_def readings_def configured_def float_of_u64_def
        HNSEC_PER_SEC_def)
  show ?thesis
    using setpoints_stay_in_range [OF i n, of 0] i n v m by simp
qed

text \<open>
  C1 as stated fails for \<open>dc_actual\<close>, which the controller never clamps. After a
  start at 12 V (duty cycle 1/6), a commutation period of 490 ticks, below half the limit
  of 1000, makes the throttle-back value -1/50, which is within \<open>dc_step_max\<close> of 1/6
  and is applied as it is. And with the setpoint 1, an iteration that comes 0.9 s after
  the previous one steps the duty cycle by 0.9, from 1/6 to 16/15.
\<close>

theorem dc_actual_leaves_unit_interval_counterexample:
  "motorctl_init 0 (readings MOTOR_STATE_IDLE 0 (Fin 12) 0)
     = Inr (0, [ChMtxInit, ChEvtInit, Configure, Init_filters, ChThdCreateStatic],
            configured, initial) \<and>
   dc_actual (snd (run configured (0, initial)
     [Set_duty_cycle (Fin (1 / 2)),
      Worker_iteration (readings MOTOR_STATE_IDLE 0 (Fin 12) 10000),
      Worker_iteration (readings MOTOR_STATE_RUNNING 490 (Fin 12) 20000)]))
     = Fin (- (1 / 50)) \<and>
   \<not> in_unit (Fin (- (1 / 50))) \<and>
   dc_actual (snd (run configured (0, initial)
     [Set_duty_cycle (Fin 1),
      Worker_iteration (readings MOTOR_STATE_IDLE 0 (Fin 12) 10000),
      Worker_iteration (readings MOTOR_STATE_RUNNING 2000 (Fin 12) 9010000)]))
     = Fin (16 / 15) \<and>
   \<not> in_unit (Fin (16 / 15))"
  by (simp add: model_defs)

end
